theory Spec2Isabelle
  imports Main "HOL-Library.Word"
begin

text \<open>
  A model of \<^verbatim>\<open>simple_thread_wrapper.h\<close>: a worker thread that sleeps on a condition
  variable until a timeout passes, a predicate of the caller holds or a stop is requested,
  and calls the caller's function after every wake-up that is not a stop. The model follows
  the worker thread step by step; what the other threads do (store the stop flag, change
  what the predicate reads, notify, assign to the argument object) is an input to it.
\<close>

section \<open>The lock and the scoped unlock holder\<close>

text \<open>
  \<^verbatim>\<open>std::chrono::steady_clock::duration\<close> is a count of clock ticks in a signed 64-bit
  integer. The wrapper only stores and copies durations, so the bit pattern is all that
  matters here.
\<close>

type_synonym duration = "64 word"

text \<open>
  The loop owns \<^verbatim>\<open>std::unique_lock lck(m_thread_mutex)\<close>. Of that object the model keeps
  the one thing the wrapper depends on: whether it owns the mutex. \<^verbatim>\<open>unlock()\<close> on a lock
  that does not own the mutex and \<^verbatim>\<open>lock()\<close> on one that already owns it throw
  \<^verbatim>\<open>std::system_error\<close>; both are branches of the model. Waiting for a contended mutex
  is not modelled: \<^verbatim>\<open>lock()\<close> on a free lock returns with the mutex owned.
\<close>

datatype system_error = Operation_not_permitted | Resource_deadlock_would_occur | Invalid_argument

definition unique_lock_unlock :: "bool \<Rightarrow> system_error + bool" where
  "unique_lock_unlock owns = (if owns then Inr False else Inl Operation_not_permitted)"

definition unique_lock_lock :: "bool \<Rightarrow> system_error + bool" where
  "unique_lock_lock owns = (if owns then Inl Resource_deadlock_would_occur else Inr True)"

text \<open>
  \<^verbatim>\<open>internal::simple_thread_context\<close>. The member \<^verbatim>\<open>m_lock_holder\<close> is a reference to
  the loop's \<^verbatim>\<open>lck\<close>; while the callback runs it is the only name through which \<^verbatim>\<open>lck\<close>
  is touched, so the record carries the state of \<^verbatim>\<open>lck\<close> itself.
\<close>

record simple_thread_context =
  m_lock_holder :: bool
  m_was_timeout :: bool
  m_duration :: duration

definition simple_thread_context_new :: "bool \<Rightarrow> simple_thread_context" where
  "simple_thread_context_new lock_holder =
     \<lparr>m_lock_holder = lock_holder, m_was_timeout = False, m_duration = 0\<rparr>"

definition was_timeout :: "simple_thread_context \<Rightarrow> bool" where
  "was_timeout c = m_was_timeout c"

definition get_timeout :: "simple_thread_context \<Rightarrow> duration" where
  "get_timeout c = m_duration c"

definition set_timeout :: "duration \<Rightarrow> simple_thread_context \<Rightarrow> simple_thread_context" where
  "set_timeout d c = c\<lparr>m_duration := d\<rparr>"

definition set_was_timeout :: "bool \<Rightarrow> simple_thread_context \<Rightarrow> simple_thread_context" where
  "set_was_timeout b c = c\<lparr>m_was_timeout := b\<rparr>"

definition get_new_timeout :: "simple_thread_context \<Rightarrow> duration" where
  "get_new_timeout c = m_duration c"

text \<open>
  \<^verbatim>\<open>simple_thread_unlock_holder_impl\<close>: the constructor unlocks the referenced lock, the
  destructor locks it again. \<^verbatim>\<open>unlock()\<close> of the context constructs a holder on
  \<^verbatim>\<open>m_lock_holder\<close>; an exception of the constructor leaves no holder behind.
\<close>

definition simple_thread_unlock_holder_impl ::
  "simple_thread_context \<Rightarrow> system_error + simple_thread_context" where
  "simple_thread_unlock_holder_impl c =
     (case unique_lock_unlock (m_lock_holder c) of
        Inl e \<Rightarrow> Inl e
      | Inr owns \<Rightarrow> Inr (c\<lparr>m_lock_holder := owns\<rparr>))"

definition destroy_unlock_holder ::
  "simple_thread_context \<Rightarrow> system_error + simple_thread_context" where
  "destroy_unlock_holder c =
     (case unique_lock_lock (m_lock_holder c) of
        Inl e \<Rightarrow> Inl e
      | Inr owns \<Rightarrow> Inr (c\<lparr>m_lock_holder := owns\<rparr>))"

definition unlock :: "simple_thread_context \<Rightarrow> system_error + simple_thread_context" where
  "unlock c = simple_thread_unlock_holder_impl c"

section \<open>Callbacks\<close>

text \<open>
  The callback \<^verbatim>\<open>fx\<close> is the caller's code. It sees the context through
  \<^verbatim>\<open>simple_thread_context_intf\<close> only, and the extra argument through the reference it is
  handed. A callback body is therefore the tree of interface calls it makes, each getter
  branching on the value returned: \<open>Call_unlock k h\<close> is \<^verbatim>\<open>auto u = ctx.unlock();\<close> with
  the holder in a local of the callback, going on as \<open>k\<close>, or as \<open>h\<close> when \<^verbatim>\<open>unlock()\<close>
  threw (\<open>h = Throw\<close> for a callback that does not catch it); \<open>Reset_holder\<close> is
  \<^verbatim>\<open>u.reset();\<close> or the end of the holder's scope, \<open>Assign_arg\<close> writes through the
  argument reference, \<open>Throw\<close> is an exception that leaves the callback and \<open>Return\<close>
  the end of the function. Holders that are moved out of the callback or released from
  their \<^verbatim>\<open>unique_ptr\<close>, and calls of the worker's own \<^verbatim>\<open>stop\<close> from inside the callback,
  are outside this model.
\<close>

datatype 'a fx_body =
    Return
  | Throw
  | Call_was_timeout "bool \<Rightarrow> 'a fx_body"
  | Call_get_timeout "duration \<Rightarrow> 'a fx_body"
  | Call_set_timeout duration "'a fx_body"
  | Call_unlock "'a fx_body" "'a fx_body"
  | Reset_holder "'a fx_body"
  | Assign_arg 'a "'a fx_body"

text \<open>What one invocation did, in order, with the values the getters returned.\<close>

datatype 'a action =
    Got_was_timeout bool
  | Got_timeout duration
  | Did_set_timeout duration
  | Unlocked
  | Unlock_failed
  | Relocked
  | Assigned 'a
  | Threw

text \<open>
  An invocation ends by returning, or by an exception that leaves the callback, or, when a
  holder's destructor throws, in \<^verbatim>\<open>std::terminate\<close> (destructors are \<^verbatim>\<open>noexcept\<close>).
\<close>

datatype outcome = Returned | Raised | Terminated

record 'a frame =
  fr_ctx :: simple_thread_context
  fr_holders :: nat
  fr_arg :: 'a
  fr_trace :: "'a action list"

text \<open>
  Leaving the callback, normally or by unwinding, destroys the holders still alive in its
  locals; each destructor locks the loop's lock.
\<close>

fun drop_holders ::
  "nat \<Rightarrow> simple_thread_context \<Rightarrow> 'a action list \<Rightarrow> (simple_thread_context \<times> 'a action list) option"
where
  "drop_holders 0 c tr = Some (c, tr)"
| "drop_holders (Suc n) c tr =
     (case destroy_unlock_holder c of
        Inl e \<Rightarrow> None
      | Inr c' \<Rightarrow> drop_holders n c' (tr @ [Relocked]))"

definition leave :: "outcome \<Rightarrow> 'a frame \<Rightarrow> 'a frame \<times> outcome" where
  "leave out f =
     (case drop_holders (fr_holders f) (fr_ctx f) (fr_trace f) of
        None \<Rightarrow> (f, Terminated)
      | Some (c, tr) \<Rightarrow> (f\<lparr>fr_ctx := c, fr_holders := 0, fr_trace := tr\<rparr>, out))"

definition did :: "'a action \<Rightarrow> 'a frame \<Rightarrow> 'a frame" where
  "did a f = f\<lparr>fr_trace := fr_trace f @ [a]\<rparr>"

primrec run_body :: "'a fx_body \<Rightarrow> 'a frame \<Rightarrow> 'a frame \<times> outcome" where
  "run_body Return = (\<lambda>f. leave Returned f)"
| "run_body Throw = (\<lambda>f. leave Raised (did Threw f))"
| "run_body (Call_was_timeout k) =
     (\<lambda>f. run_body (k (was_timeout (fr_ctx f))) (did (Got_was_timeout (was_timeout (fr_ctx f))) f))"
| "run_body (Call_get_timeout k) =
     (\<lambda>f. run_body (k (get_timeout (fr_ctx f))) (did (Got_timeout (get_timeout (fr_ctx f))) f))"
| "run_body (Call_set_timeout d k) =
     (\<lambda>f. run_body k (did (Did_set_timeout d) (f\<lparr>fr_ctx := set_timeout d (fr_ctx f)\<rparr>)))"
| "run_body (Call_unlock k h) =
     (\<lambda>f. case unlock (fr_ctx f) of
             Inl e \<Rightarrow> run_body h (did Unlock_failed f)
           | Inr c \<Rightarrow> run_body k (did Unlocked (f\<lparr>fr_ctx := c, fr_holders := Suc (fr_holders f)\<rparr>)))"
| "run_body (Reset_holder k) =
     (\<lambda>f. case fr_holders f of
             0 \<Rightarrow> run_body k f
           | Suc n \<Rightarrow>
               (case destroy_unlock_holder (fr_ctx f) of
                  Inl e \<Rightarrow> (f, Terminated)
                | Inr c \<Rightarrow> run_body k (did Relocked (f\<lparr>fr_ctx := c, fr_holders := n\<rparr>))))"
| "run_body (Assign_arg v k) =
     (\<lambda>f. run_body k (did (Assigned v) (f\<lparr>fr_arg := v\<rparr>)))"

section \<open>The timed wait\<close>

text \<open>
  \<^verbatim>\<open>m_thread_cv.wait_for(lck, thread_timeout, [&]() { return pred() || m_thread_stop; })\<close>
  is, by the definition of \<^verbatim>\<open>std::condition_variable\<close>,
  \<^verbatim>\<open>while (!p()) if (wait_until(lck, deadline) == cv_status::timeout) return p(); return true;\<close>
  What the other threads do while the worker sleeps is the input of the model. Each
  evaluation of the lambda is a \<open>probe\<close>: the value \<^verbatim>\<open>pred()\<close> returns then, and whether
  \<^verbatim>\<open>stop()\<close> on another thread has stored \<^verbatim>\<open>true\<close> into \<^verbatim>\<open>m_thread_stop\<close> since the
  evaluation before (the flag is never cleared). Each return of the inner wait has a
  \<open>cause\<close>: a \<^verbatim>\<open>notify_one\<close>, a spurious wake-up, or the deadline. Durations are not
  interpreted: the deadline has passed when the environment says \<open>Expired\<close>.
\<close>

datatype cause = Notified | Spurious | Expired

record probe =
  pr_pred :: bool
  pr_stop :: bool

text \<open>
  Beside the value \<^verbatim>\<open>wait_for\<close> returns (\<open>wait_res\<close>) the report keeps the timeout
  the wait was called with (\<open>rel_time\<close>) and what the last evaluation of the lambda saw:
  the flag \<^verbatim>\<open>m_thread_stop\<close> (\<open>stop_now\<close>), the value of \<^verbatim>\<open>pred()\<close> (\<open>pred_now\<close>), and
  the cause of the last wake-up (\<open>woken_by\<close>; \<open>None\<close> when the condition held on entry
  and the thread never slept). A wait that does not end within the wake-ups given is
  \<open>None\<close>. A predicate that throws is outside the model.
\<close>

record wait_report =
  rel_time :: duration
  wait_res :: bool
  stop_now :: bool
  pred_now :: bool
  woken_by :: "cause option"

fun wait_until_pred ::
  "duration \<Rightarrow> bool \<Rightarrow> (cause \<times> probe) list \<Rightarrow> wait_report option" where
  "wait_until_pred d stop [] = None"
| "wait_until_pred d stop ((c, p) # ws) =
     (let stop' = (stop \<or> pr_stop p);
          sat = (pr_pred p \<or> stop')
      in if c = Expired \<or> sat
         then Some \<lparr>rel_time = d, wait_res = sat, stop_now = stop', pred_now = pr_pred p,
                    woken_by = Some c\<rparr>
         else wait_until_pred d stop' ws)"

definition wait_for ::
  "duration \<Rightarrow> bool \<Rightarrow> probe \<Rightarrow> (cause \<times> probe) list \<Rightarrow> wait_report option" where
  "wait_for d stop p0 ws =
     (let stop0 = (stop \<or> pr_stop p0)
      in if pr_pred p0 \<or> stop0
         then Some \<lparr>rel_time = d, wait_res = True, stop_now = stop0, pred_now = pr_pred p0,
                    woken_by = None\<rparr>
         else wait_until_pred d stop0 ws)"

section \<open>The worker\<close>

text \<open>
  \<^verbatim>\<open>class simple_thread\<close>. The handle \<^verbatim>\<open>m_thread\<close> is joinable from \<^verbatim>\<open>start\<close> until
  \<^verbatim>\<open>join\<close>, whether or not the thread function has returned. \<open>m_thread_cv\<close> counts the
  \<^verbatim>\<open>notify_one\<close> calls made on the condition variable. \<open>thread_timeout\<close> is the local of
  the thread function. The lambda of \<^verbatim>\<open>start\<close> captures by reference (\<^verbatim>\<open>[&]\<close>), so the
  pack \<^verbatim>\<open>ax\<close> names the caller's own object: \<open>ax\<close> is that object, which the caller can
  still assign to. \<open>printed\<close> is what went to \<^verbatim>\<open>std::cout\<close>, without the time stamps, and
  \<open>calls\<close> the history of the callback invocations.
  The model assumes that the referents of the other captures (\<^verbatim>\<open>timeout\<close>, \<^verbatim>\<open>pred\<close>,
  \<^verbatim>\<open>fx\<close>) are still alive when the thread uses them.
\<close>

datatype thread_handle = Not_started | Running | Returned_unjoined | Joined

definition joinable :: "thread_handle \<Rightarrow> bool" where
  "joinable h = (h = Running \<or> h = Returned_unjoined)"

datatype line = Stop_requested | Exception_in_thread_procedure

record 'a call =
  c_arg :: 'a
  c_report :: wait_report
  c_trace :: "'a action list"
  c_outcome :: outcome
  c_lock_held :: bool

record 'a simple_thread =
  m_thread_stop :: bool
  m_thread :: thread_handle
  m_thread_cv :: nat
  thread_timeout :: duration
  ax :: 'a
  printed :: "line list"
  calls :: "'a call list"

definition simple_thread_new :: "'a \<Rightarrow> 'a simple_thread" where
  "simple_thread_new a =
     \<lparr>m_thread_stop = False, m_thread = Not_started, m_thread_cv = 0, thread_timeout = 0,
      ax = a, printed = [], calls = []\<rparr>"

text \<open>
  What surrounds one iteration of the loop: the probes of its wait, and an assignment the
  caller makes to its own object before the callback is entered.
\<close>

record 'a surroundings =
  s_first :: probe
  s_wakes :: "(cause \<times> probe) list"
  s_caller_assigns :: "'a option"

datatype 'a progress =
    Still_waiting
  | Loop_exit "'a simple_thread"
  | Loop_again "'a simple_thread"
  | Std_terminate

text \<open>
  Lines 218 to 223: the context is filled in with the wake reason and the timeout of the
  wait that has just ended, and \<^verbatim>\<open>fx\<close> is called on it and on the object \<^verbatim>\<open>ax\<close> refers
  to, as that object is at the time of the call.
\<close>

definition seen_arg :: "'a surroundings \<Rightarrow> 'a simple_thread \<Rightarrow> 'a" where
  "seen_arg e w = (case s_caller_assigns e of None \<Rightarrow> ax w | Some v \<Rightarrow> v)"

definition dispatch ::
  "('a \<Rightarrow> 'a fx_body) \<Rightarrow> 'a surroundings \<Rightarrow> 'a simple_thread \<Rightarrow> wait_report
     \<Rightarrow> simple_thread_context \<Rightarrow> 'a frame \<times> outcome" where
  "dispatch fx e w r ctx =
     (let ctx1 = set_was_timeout (\<not> wait_res r) ctx;
          ctx2 = set_timeout (thread_timeout w) ctx1
      in run_body (fx (seen_arg e w))
           \<lparr>fr_ctx = ctx2, fr_holders = 0, fr_arg = seen_arg e w, fr_trace = []\<rparr>)"

text \<open>
  One pass through the body of \<^verbatim>\<open>while (true)\<close>. The states of the model are taken where
  the worker does not hold the mutex: at the top of the loop and inside the wait. The
  lock \<^verbatim>\<open>lck\<close> is constructed owning the mutex. The flag \<^verbatim>\<open>m_thread_stop\<close> of the state
  follows what the probes say another thread has stored. \<^verbatim>\<open>catch (...)\<close> takes every
  exception that leaves \<^verbatim>\<open>fx\<close>.
\<close>

definition iteration ::
  "('a \<Rightarrow> 'a fx_body) \<Rightarrow> 'a surroundings \<Rightarrow> 'a simple_thread \<Rightarrow> 'a progress" where
  "iteration fx e w =
     (let lck = True;
          ctx = simple_thread_context_new lck
      in case wait_for (thread_timeout w) (m_thread_stop w) (s_first e) (s_wakes e) of
           None \<Rightarrow> Still_waiting
         | Some r \<Rightarrow>
             if stop_now r
             then Loop_exit (w\<lparr>m_thread_stop := True, m_thread := Returned_unjoined,
                               printed := printed w @ [Stop_requested]\<rparr>)
             else
               (case dispatch fx e w r ctx of
                  (f, out) \<Rightarrow>
                    if out = Terminated then Std_terminate
                    else Loop_again
                      (w\<lparr>thread_timeout := get_new_timeout (fr_ctx f),
                         ax := fr_arg f,
                         printed := (if out = Raised
                                     then printed w @ [Exception_in_thread_procedure]
                                     else printed w),
                         calls := calls w @
                           [\<lparr>c_arg = seen_arg e w, c_report = r,
                             c_trace = fr_trace f, c_outcome = out,
                             c_lock_held = m_lock_holder (fr_ctx f)\<rparr>]\<rparr>)))"

text \<open>
  The thread function, run against the surroundings of its successive iterations. It ends
  when an iteration returns; an iteration whose wait does not end, or the end of the list,
  leaves the thread in the wait. \<open>None\<close> is \<^verbatim>\<open>std::terminate\<close>.
\<close>

fun thread_proc ::
  "('a \<Rightarrow> 'a fx_body) \<Rightarrow> 'a surroundings list \<Rightarrow> 'a simple_thread \<Rightarrow> 'a simple_thread option"
where
  "thread_proc fx [] w = Some w"
| "thread_proc fx (e # es) w =
     (if m_thread w \<noteq> Running then Some w
      else case iteration fx e w of
             Still_waiting \<Rightarrow> Some w
           | Loop_exit w' \<Rightarrow> Some w'
           | Loop_again w' \<Rightarrow> thread_proc fx es w'
           | Std_terminate \<Rightarrow> None)"

text \<open>
  How a call made by the owner of the worker ends: it returns, it throws, it never
  returns, or the process is ended by \<^verbatim>\<open>std::terminate\<close>.
\<close>

datatype 'a completion =
    Completed 'a
  | Throws system_error
  | Never_returns
  | Process_terminated

text \<open>
  \<^verbatim>\<open>start\<close>: the move assignment to \<^verbatim>\<open>m_thread\<close> calls \<^verbatim>\<open>std::terminate\<close> when the handle
  is still joinable. The new thread begins with \<^verbatim>\<open>thread_timeout = timeout\<close>.
\<close>

definition start :: "duration \<Rightarrow> 'a simple_thread \<Rightarrow> 'a simple_thread completion" where
  "start timeout w =
     (if joinable (m_thread w) then Process_terminated
      else Completed (w\<lparr>m_thread := Running, thread_timeout := timeout\<rparr>))"

definition notify :: "'a simple_thread \<Rightarrow> 'a simple_thread" where
  "notify w = w\<lparr>m_thread_cv := Suc (m_thread_cv w)\<rparr>"

text \<open>
  \<^verbatim>\<open>m_thread.join()\<close> throws on a handle that is not joinable, and otherwise returns when
  the thread function has returned. A thread still in the loop is, when \<^verbatim>\<open>stop\<close> joins
  it, either sleeping in the wait, where the \<^verbatim>\<open>notify_one\<close> of \<^verbatim>\<open>stop\<close> wakes it, or on
  its way to the next wait; in both cases its next evaluation of the wait condition reads
  \<^verbatim>\<open>m_thread_stop\<close> as the caller of \<^verbatim>\<open>join\<close> left it.
\<close>

definition woken_once :: "'a surroundings" where
  "woken_once =
     \<lparr>s_first = \<lparr>pr_pred = False, pr_stop = False\<rparr>,
      s_wakes = [(Notified, \<lparr>pr_pred = False, pr_stop = False\<rparr>)],
      s_caller_assigns = None\<rparr>"

definition join ::
  "('a \<Rightarrow> 'a fx_body) \<Rightarrow> 'a simple_thread \<Rightarrow> 'a simple_thread completion" where
  "join fx w =
     (if \<not> joinable (m_thread w) then Throws Invalid_argument
      else case thread_proc fx [woken_once] w of
             None \<Rightarrow> Process_terminated
           | Some w' \<Rightarrow>
               if m_thread w' = Returned_unjoined then Completed (w'\<lparr>m_thread := Joined\<rparr>)
               else Never_returns)"

definition stop ::
  "('a \<Rightarrow> 'a fx_body) \<Rightarrow> 'a simple_thread \<Rightarrow> 'a simple_thread completion" where
  "stop fx w =
     (let w1 = w\<lparr>m_thread_stop := True\<rparr>;
          w2 = w1\<lparr>m_thread_cv := Suc (m_thread_cv w1)\<rparr>
      in if joinable (m_thread w2) then join fx w2 else Completed w2)"

text \<open>
  \<^verbatim>\<open>~simple_thread\<close> calls \<^verbatim>\<open>stop()\<close>; then the members are destroyed, and the destructor
  of a joinable \<^verbatim>\<open>std::thread\<close> calls \<^verbatim>\<open>std::terminate\<close>, as does an exception that
  leaves a destructor.
\<close>

definition destructor ::
  "('a \<Rightarrow> 'a fx_body) \<Rightarrow> 'a simple_thread \<Rightarrow> 'a simple_thread completion" where
  "destructor fx w =
     (case stop fx w of
        Completed w' \<Rightarrow> if joinable (m_thread w') then Process_terminated else Completed w'
      | Throws e \<Rightarrow> Process_terminated
      | Never_returns \<Rightarrow> Never_returns
      | Process_terminated \<Rightarrow> Process_terminated)"

section \<open>Reading a trace\<close>

text \<open>
  The timeout the context holds after the actions of a trace, when it held \<open>d\<close> before:
  the argument of the last \<^verbatim>\<open>set_timeout\<close>, or \<open>d\<close> when there is none.
\<close>

fun timeout_held :: "duration \<Rightarrow> 'a action list \<Rightarrow> duration" where
  "timeout_held d [] = d"
| "timeout_held d (Did_set_timeout x # tr) = timeout_held x tr"
| "timeout_held d (a # tr) = timeout_held d tr"

text \<open>
  A frame is consistent when the holders alive in the callback account for the state of
  the lock: none while the lock owns the mutex, one while it does not.
\<close>

definition consistent :: "'a frame \<Rightarrow> bool" where
  "consistent f = (fr_holders f = (if m_lock_holder (fr_ctx f) then 0 else 1))"

text \<open>
  A trace is coherent with a wake flag \<open>t\<close> and a duration \<open>d\<close> held by the context at its
  start when every getter returned what the context held at that point:
  \<^verbatim>\<open>was_timeout()\<close> the flag, \<^verbatim>\<open>get_timeout()\<close> the duration stored last.
\<close>

fun coherent :: "bool \<Rightarrow> duration \<Rightarrow> 'a action list \<Rightarrow> bool" where
  "coherent t d [] = True"
| "coherent t d (Got_was_timeout b # tr) = (b = t \<and> coherent t d tr)"
| "coherent t d (Got_timeout x # tr) = (x = d \<and> coherent t d tr)"
| "coherent t d (Did_set_timeout x # tr) = coherent t x tr"
| "coherent t d (a # tr) = coherent t d tr"

text \<open>
  A trace is unwound when an exception is the end of the callback's own actions and is
  followed by the relock of the holder alive at that point, if there is one, and by
  nothing else.
\<close>

fun unwound :: "bool \<Rightarrow> 'a action list \<Rightarrow> bool" where
  "unwound owns [] = True"
| "unwound owns (Threw # tr) = (tr = (if owns then [] else [Relocked]))"
| "unwound owns (Unlocked # tr) = unwound False tr"
| "unwound owns (Relocked # tr) = unwound True tr"
| "unwound owns (a # tr) = unwound owns tr"

definition raised_in :: "'a action list \<Rightarrow> bool" where
  "raised_in tr = (Threw \<in> set tr)"

text \<open>Whether the callback called \<^verbatim>\<open>set_timeout\<close> during the invocation.\<close>

fun sets_timeout :: "'a action list \<Rightarrow> bool" where
  "sets_timeout [] = False"
| "sets_timeout (Did_set_timeout d # tr) = True"
| "sets_timeout (a # tr) = sets_timeout tr"

definition args_seen :: "'a simple_thread \<Rightarrow> 'a list" where
  "args_seen w = map c_arg (calls w)"

section \<open>Concrete runs\<close>

text \<open>
  The callback of \<^verbatim>\<open>testing-app.cpp\<close>. It reaches two objects of \<^verbatim>\<open>main\<close> by reference,
  the flag \<^verbatim>\<open>event1\<close> and the string \<^verbatim>\<open>aaa\<close>; the pair of them is the argument object
  here. On an event it clears the flag, asks for a timeout of two seconds and throws
  while its unlock holder is alive.
\<close>

definition testing_app_fx :: "bool \<times> string \<Rightarrow> (bool \<times> string) fx_body" where
  "testing_app_fx a =
     Call_was_timeout (\<lambda>shown.
       Call_unlock
         (Call_was_timeout (\<lambda>timed_out.
            if \<not> timed_out \<and> fst a
            then Assign_arg (False, snd a) (Call_set_timeout 2000000000 Throw)
            else Reset_holder Return))
         Throw)"

definition unsatisfied :: probe where
  "unsatisfied = \<lparr>pr_pred = False, pr_stop = False\<rparr>"

definition event_set :: probe where
  "event_set = \<lparr>pr_pred = True, pr_stop = False\<rparr>"

definition stop_stored :: probe where
  "stop_stored = \<lparr>pr_pred = False, pr_stop = True\<rparr>"

definition times_out :: "'a surroundings" where
  "times_out = \<lparr>s_first = unsatisfied, s_wakes = [(Expired, unsatisfied)], s_caller_assigns = None\<rparr>"

definition notified_on_event :: "(bool \<times> string) surroundings" where
  "notified_on_event =
     \<lparr>s_first = unsatisfied,
      s_wakes = [(Spurious, unsatisfied), (Notified, event_set), (Expired, unsatisfied)],
      s_caller_assigns = Some (True, ''abc'')\<rparr>"

definition notified_in_vain :: "'a surroundings" where
  "notified_in_vain =
     \<lparr>s_first = unsatisfied, s_wakes = [(Notified, unsatisfied), (Expired, unsatisfied)],
      s_caller_assigns = None\<rparr>"

definition stopped_while_waiting :: "'a surroundings" where
  "stopped_while_waiting =
     \<lparr>s_first = unsatisfied, s_wakes = [(Notified, stop_stored)], s_caller_assigns = None\<rparr>"

definition caller_assigns :: "'a \<Rightarrow> 'a surroundings" where
  "caller_assigns v =
     \<lparr>s_first = unsatisfied, s_wakes = [(Expired, unsatisfied)], s_caller_assigns = Some v\<rparr>"

definition started :: "duration \<Rightarrow> 'a \<Rightarrow> 'a simple_thread" where
  "started timeout a = (simple_thread_new a)\<lparr>m_thread := Running, thread_timeout := timeout\<rparr>"

definition asks_was_timeout :: "'a \<Rightarrow> 'a fx_body" where
  "asks_was_timeout a = Call_was_timeout (\<lambda>b. Return)"

definition sets_then_gets :: "duration \<Rightarrow> 'a \<Rightarrow> 'a fx_body" where
  "sets_then_gets t2 a = Call_set_timeout t2 (Call_get_timeout (\<lambda>d. Return))"

definition only_returns :: "'a \<Rightarrow> 'a fx_body" where
  "only_returns a = Return"

text \<open>
  The worker of \<^verbatim>\<open>testing-app.cpp\<close> after \<^verbatim>\<open>start\<close> with a timeout of one second, and
  the states it reaches: after a wait that timed out, after the event of \<^verbatim>\<open>main\<close>
  (flag set, then \<^verbatim>\<open>notify()\<close>), and after a stop request seen in the wait.
\<close>

definition test1 :: "(bool \<times> string) simple_thread" where
  "test1 = started 1000000000 (False, ''abc'')"

definition timed_out_call :: "(bool \<times> string) call" where
  "timed_out_call =
     \<lparr>c_arg = (False, ''abc''),
      c_report = \<lparr>rel_time = 1000000000, wait_res = False, stop_now = False,
                  pred_now = False, woken_by = Some Expired\<rparr>,
      c_trace = [Got_was_timeout True, Unlocked, Got_was_timeout True, Relocked],
      c_outcome = Returned, c_lock_held = True\<rparr>"

definition event_call :: "(bool \<times> string) call" where
  "event_call =
     \<lparr>c_arg = (True, ''abc''),
      c_report = \<lparr>rel_time = 1000000000, wait_res = True, stop_now = False,
                  pred_now = True, woken_by = Some Notified\<rparr>,
      c_trace = [Got_was_timeout False, Unlocked, Got_was_timeout False,
                 Assigned (False, ''abc''), Did_set_timeout 2000000000, Threw, Relocked],
      c_outcome = Raised, c_lock_held = True\<rparr>"

definition event_report :: wait_report where
  "event_report =
     \<lparr>rel_time = 1000000000, wait_res = True, stop_now = False, pred_now = True,
      woken_by = Some Notified\<rparr>"

definition event_frame :: "(bool \<times> string) frame" where
  "event_frame =
     \<lparr>fr_ctx = \<lparr>m_lock_holder = True, m_was_timeout = False, m_duration = 2000000000\<rparr>,
      fr_holders = 0, fr_arg = (False, ''abc''),
      fr_trace = [Got_was_timeout False, Unlocked, Got_was_timeout False,
                  Assigned (False, ''abc''), Did_set_timeout 2000000000, Threw, Relocked]\<rparr>"

definition test1_after_timeout :: "(bool \<times> string) simple_thread" where
  "test1_after_timeout = test1\<lparr>calls := [timed_out_call]\<rparr>"

definition test1_after_event :: "(bool \<times> string) simple_thread" where
  "test1_after_event =
     test1\<lparr>thread_timeout := 2000000000, printed := [Exception_in_thread_procedure],
           calls := [event_call]\<rparr>"

definition late_call :: "(bool \<times> string) call" where
  "late_call =
     \<lparr>c_arg = (False, ''abc''),
      c_report = \<lparr>rel_time = 2000000000, wait_res = False, stop_now = False, pred_now = False,
                  woken_by = Some Expired\<rparr>,
      c_trace = [Got_was_timeout True, Unlocked, Got_was_timeout True, Relocked],
      c_outcome = Returned, c_lock_held = True\<rparr>"

definition test1_after_two_timeouts :: "(bool \<times> string) simple_thread" where
  "test1_after_two_timeouts = test1\<lparr>calls := [timed_out_call, timed_out_call]\<rparr>"

definition test1_after_event_and_timeout :: "(bool \<times> string) simple_thread" where
  "test1_after_event_and_timeout = test1_after_event\<lparr>calls := [event_call, late_call]\<rparr>"

definition test1_after_stop :: "(bool \<times> string) simple_thread" where
  "test1_after_stop =
     test1\<lparr>m_thread_stop := True, m_thread := Returned_unjoined, printed := [Stop_requested]\<rparr>"

definition test1_stopped :: "(bool \<times> string) simple_thread" where
  "test1_stopped =
     test1\<lparr>m_thread_stop := True, m_thread := Joined, m_thread_cv := 1,
           printed := [Stop_requested]\<rparr>"

definition never_started :: "(bool \<times> string) simple_thread" where
  "never_started = simple_thread_new (False, ''abc'')"

section \<open>Facts about callbacks, the wait and one iteration\<close>

lemma unlock_cases:
  "unlock c = (if m_lock_holder c then Inr (c\<lparr>m_lock_holder := False\<rparr>)
               else Inl Operation_not_permitted)"
  by (simp add: unlock_def simple_thread_unlock_holder_impl_def unique_lock_unlock_def)

lemma destroy_unlock_holder_cases:
  "destroy_unlock_holder c =
     (if m_lock_holder c then Inl Resource_deadlock_would_occur
      else Inr (c\<lparr>m_lock_holder := True\<rparr>))"
  by (simp add: destroy_unlock_holder_def unique_lock_lock_def)

lemma consistent_did: "consistent (did a f) = consistent f"
  by (simp add: consistent_def did_def)

lemma leave_consistent:
  "consistent f \<Longrightarrow>
   leave out f =
     (f\<lparr>fr_ctx := (fr_ctx f)\<lparr>m_lock_holder := True\<rparr>, fr_holders := 0,
        fr_trace := fr_trace f @ (if m_lock_holder (fr_ctx f) then [] else [Relocked])\<rparr>, out)"
  by (simp add: consistent_def leave_def destroy_unlock_holder_cases)

lemma run_body_lock:
  "consistent f \<Longrightarrow> run_body b f = (f', out) \<Longrightarrow>
   out \<noteq> Terminated \<and> m_lock_holder (fr_ctx f') \<and> fr_holders f' = 0"
proof (induction b arbitrary: f)
  case Return
  then show ?case by (auto simp: leave_consistent)
next
  case Throw
  then show ?case by (auto simp: leave_consistent consistent_did)
next
  case (Call_was_timeout k)
  let ?g = "did (Got_was_timeout (was_timeout (fr_ctx f))) f"
  have "consistent ?g"
    using Call_was_timeout.prems(1) by (simp add: consistent_did)
  moreover have "run_body (k (was_timeout (fr_ctx f))) ?g = (f', out)"
    using Call_was_timeout.prems(2) by simp
  ultimately show ?case by (rule Call_was_timeout.IH [OF rangeI])
next
  case (Call_get_timeout k)
  let ?g = "did (Got_timeout (get_timeout (fr_ctx f))) f"
  have "consistent ?g"
    using Call_get_timeout.prems(1) by (simp add: consistent_did)
  moreover have "run_body (k (get_timeout (fr_ctx f))) ?g = (f', out)"
    using Call_get_timeout.prems(2) by simp
  ultimately show ?case by (rule Call_get_timeout.IH [OF rangeI])
next
  case (Call_set_timeout d k)
  let ?g = "did (Did_set_timeout d) (f\<lparr>fr_ctx := set_timeout d (fr_ctx f)\<rparr>)"
  have "consistent ?g"
    using Call_set_timeout.prems(1) by (simp add: consistent_def did_def set_timeout_def)
  moreover have "run_body k ?g = (f', out)"
    using Call_set_timeout.prems(2) by simp
  ultimately show ?case by (rule Call_set_timeout.IH)
next
  case (Call_unlock k h)
  show ?case
  proof (cases "m_lock_holder (fr_ctx f)")
    case True
    let ?g = "did Unlocked (f\<lparr>fr_ctx := (fr_ctx f)\<lparr>m_lock_holder := False\<rparr>,
                               fr_holders := Suc (fr_holders f)\<rparr>)"
    have "consistent ?g"
      using Call_unlock.prems(1) True by (simp add: consistent_def did_def)
    moreover have "run_body k ?g = (f', out)"
      using Call_unlock.prems(2) True by (simp add: unlock_cases)
    ultimately show ?thesis by (rule Call_unlock.IH(1))
  next
    case False
    have "consistent (did Unlock_failed f)"
      using Call_unlock.prems(1) by (simp add: consistent_did)
    moreover have "run_body h (did Unlock_failed f) = (f', out)"
      using Call_unlock.prems(2) False by (simp add: unlock_cases)
    ultimately show ?thesis by (rule Call_unlock.IH(2))
  qed
next
  case (Reset_holder k)
  show ?case
  proof (cases "m_lock_holder (fr_ctx f)")
    case True
    then have "fr_holders f = 0"
      using Reset_holder.prems(1) by (simp add: consistent_def)
    then have "run_body k f = (f', out)"
      using Reset_holder.prems(2) by simp
    with Reset_holder.prems(1) show ?thesis by (rule Reset_holder.IH)
  next
    case False
    then have h: "fr_holders f = Suc 0"
      using Reset_holder.prems(1) by (simp add: consistent_def)
    let ?g = "did Relocked (f\<lparr>fr_ctx := (fr_ctx f)\<lparr>m_lock_holder := True\<rparr>, fr_holders := 0\<rparr>)"
    have "consistent ?g" by (simp add: consistent_def did_def)
    moreover have "run_body k ?g = (f', out)"
      using Reset_holder.prems(2) False h by (simp add: destroy_unlock_holder_cases)
    ultimately show ?thesis by (rule Reset_holder.IH)
  qed
next
  case (Assign_arg v k)
  let ?g = "did (Assigned v) (f\<lparr>fr_arg := v\<rparr>)"
  have "consistent ?g"
    using Assign_arg.prems(1) by (simp add: consistent_def did_def)
  moreover have "run_body k ?g = (f', out)"
    using Assign_arg.prems(2) by simp
  ultimately show ?case by (rule Assign_arg.IH)
qed


lemma run_body_trace:
  "consistent f \<Longrightarrow> run_body b f = (f', out) \<Longrightarrow>
   \<exists>tr. fr_trace f' = fr_trace f @ tr \<and> coherent (m_was_timeout (fr_ctx f)) (m_duration (fr_ctx f)) tr \<and>
        unwound (m_lock_holder (fr_ctx f)) tr \<and>
        m_duration (fr_ctx f') = timeout_held (m_duration (fr_ctx f)) tr \<and>
        m_was_timeout (fr_ctx f') = m_was_timeout (fr_ctx f) \<and>
        (out = Raised) = raised_in tr"
proof (induction b arbitrary: f)
  case Return
  then show ?case
    by (intro exI [of _ "if m_lock_holder (fr_ctx f) then [] else [Relocked]"])
       (auto simp: leave_consistent raised_in_def)
next
  case Throw
  have "consistent (did Threw f)"
    using Throw.prems(1) by (simp add: consistent_did)
  from leave_consistent [OF this, of Raised] Throw.prems(2)
  have "out = Raised"
    "fr_trace f' = fr_trace f @ Threw # (if m_lock_holder (fr_ctx f) then [] else [Relocked])"
    "m_duration (fr_ctx f') = m_duration (fr_ctx f)"
    "m_was_timeout (fr_ctx f') = m_was_timeout (fr_ctx f)"
    by (auto simp: did_def)
  then show ?case
    by (intro exI [of _ "Threw # (if m_lock_holder (fr_ctx f) then [] else [Relocked])"])
       (simp add: raised_in_def)
next
  case (Call_was_timeout k)
  let ?a = "Got_was_timeout (was_timeout (fr_ctx f))"
  have c: "consistent (did ?a f)"
    using Call_was_timeout.prems(1) by (simp add: consistent_did)
  have r: "run_body (k (was_timeout (fr_ctx f))) (did ?a f) = (f', out)"
    using Call_was_timeout.prems(2) by simp
  from Call_was_timeout.IH [OF rangeI c r] obtain tr where
    "fr_trace f' = fr_trace (did ?a f) @ tr" "coherent (m_was_timeout (fr_ctx (did ?a f))) (m_duration (fr_ctx (did ?a f))) tr"
    "unwound (m_lock_holder (fr_ctx (did ?a f))) tr"
    "m_duration (fr_ctx f') = timeout_held (m_duration (fr_ctx (did ?a f))) tr"
    "m_was_timeout (fr_ctx f') = m_was_timeout (fr_ctx (did ?a f))"
    "(out = Raised) = raised_in tr" by blast
  then show ?case
    by (intro exI [of _ "?a # tr"]) (simp add: did_def raised_in_def was_timeout_def)
next
  case (Call_get_timeout k)
  let ?a = "Got_timeout (get_timeout (fr_ctx f))"
  have c: "consistent (did ?a f)"
    using Call_get_timeout.prems(1) by (simp add: consistent_did)
  have r: "run_body (k (get_timeout (fr_ctx f))) (did ?a f) = (f', out)"
    using Call_get_timeout.prems(2) by simp
  from Call_get_timeout.IH [OF rangeI c r] obtain tr where
    "fr_trace f' = fr_trace (did ?a f) @ tr" "coherent (m_was_timeout (fr_ctx (did ?a f))) (m_duration (fr_ctx (did ?a f))) tr"
    "unwound (m_lock_holder (fr_ctx (did ?a f))) tr"
    "m_duration (fr_ctx f') = timeout_held (m_duration (fr_ctx (did ?a f))) tr"
    "m_was_timeout (fr_ctx f') = m_was_timeout (fr_ctx (did ?a f))"
    "(out = Raised) = raised_in tr" by blast
  then show ?case
    by (intro exI [of _ "?a # tr"]) (simp add: did_def raised_in_def get_timeout_def)
next
  case (Call_set_timeout d k)
  let ?g = "did (Did_set_timeout d) (f\<lparr>fr_ctx := set_timeout d (fr_ctx f)\<rparr>)"
  have c: "consistent ?g"
    using Call_set_timeout.prems(1) by (simp add: consistent_def did_def set_timeout_def)
  have r: "run_body k ?g = (f', out)"
    using Call_set_timeout.prems(2) by simp
  from Call_set_timeout.IH [OF c r] obtain tr where
    "fr_trace f' = fr_trace ?g @ tr" "coherent (m_was_timeout (fr_ctx ?g)) (m_duration (fr_ctx ?g)) tr"
    "unwound (m_lock_holder (fr_ctx ?g)) tr"
    "m_duration (fr_ctx f') = timeout_held (m_duration (fr_ctx ?g)) tr"
    "m_was_timeout (fr_ctx f') = m_was_timeout (fr_ctx ?g)"
    "(out = Raised) = raised_in tr" by blast
  then show ?case
    by (intro exI [of _ "Did_set_timeout d # tr"]) (simp add: did_def raised_in_def set_timeout_def)
next
  case (Call_unlock k h)
  show ?case
  proof (cases "m_lock_holder (fr_ctx f)")
    case True
    let ?g = "did Unlocked (f\<lparr>fr_ctx := (fr_ctx f)\<lparr>m_lock_holder := False\<rparr>,
                               fr_holders := Suc (fr_holders f)\<rparr>)"
    have c: "consistent ?g"
      using Call_unlock.prems(1) True by (simp add: consistent_def did_def)
    have r: "run_body k ?g = (f', out)"
      using Call_unlock.prems(2) True by (simp add: unlock_cases)
    from Call_unlock.IH(1) [OF c r] obtain tr where
      "fr_trace f' = fr_trace ?g @ tr"
      "coherent (m_was_timeout (fr_ctx ?g)) (m_duration (fr_ctx ?g)) tr"
      "unwound (m_lock_holder (fr_ctx ?g)) tr"
      "m_duration (fr_ctx f') = timeout_held (m_duration (fr_ctx ?g)) tr"
      "m_was_timeout (fr_ctx f') = m_was_timeout (fr_ctx ?g)"
      "(out = Raised) = raised_in tr" by blast
    then show ?thesis
      by (intro exI [of _ "Unlocked # tr"]) (simp add: did_def raised_in_def)
  next
    case False
    let ?g = "did Unlock_failed f"
    have c: "consistent ?g"
      using Call_unlock.prems(1) by (simp add: consistent_did)
    have r: "run_body h ?g = (f', out)"
      using Call_unlock.prems(2) False by (simp add: unlock_cases)
    from Call_unlock.IH(2) [OF c r] obtain tr where
      "fr_trace f' = fr_trace ?g @ tr"
      "coherent (m_was_timeout (fr_ctx ?g)) (m_duration (fr_ctx ?g)) tr"
      "unwound (m_lock_holder (fr_ctx ?g)) tr"
      "m_duration (fr_ctx f') = timeout_held (m_duration (fr_ctx ?g)) tr"
      "m_was_timeout (fr_ctx f') = m_was_timeout (fr_ctx ?g)"
      "(out = Raised) = raised_in tr" by blast
    then show ?thesis
      by (intro exI [of _ "Unlock_failed # tr"]) (simp add: did_def raised_in_def)
  qed
next
  case (Reset_holder k)
  show ?case
  proof (cases "m_lock_holder (fr_ctx f)")
    case True
    then have "fr_holders f = 0"
      using Reset_holder.prems(1) by (simp add: consistent_def)
    then have "run_body k f = (f', out)"
      using Reset_holder.prems(2) by simp
    with Reset_holder.prems(1) show ?thesis by (rule Reset_holder.IH)
  next
    case False
    then have h: "fr_holders f = Suc 0"
      using Reset_holder.prems(1) by (simp add: consistent_def)
    let ?g = "did Relocked (f\<lparr>fr_ctx := (fr_ctx f)\<lparr>m_lock_holder := True\<rparr>, fr_holders := 0\<rparr>)"
    have c: "consistent ?g" by (simp add: consistent_def did_def)
    have r: "run_body k ?g = (f', out)"
      using Reset_holder.prems(2) False h by (simp add: destroy_unlock_holder_cases)
    from Reset_holder.IH [OF c r] obtain tr where
      "fr_trace f' = fr_trace ?g @ tr" "coherent (m_was_timeout (fr_ctx ?g)) (m_duration (fr_ctx ?g)) tr"
      "unwound (m_lock_holder (fr_ctx ?g)) tr"
      "m_duration (fr_ctx f') = timeout_held (m_duration (fr_ctx ?g)) tr"
      "m_was_timeout (fr_ctx f') = m_was_timeout (fr_ctx ?g)"
      "(out = Raised) = raised_in tr" by blast
    then show ?thesis
      by (intro exI [of _ "Relocked # tr"]) (simp add: did_def raised_in_def)
  qed
next
  case (Assign_arg v k)
  let ?g = "did (Assigned v) (f\<lparr>fr_arg := v\<rparr>)"
  have c: "consistent ?g"
    using Assign_arg.prems(1) by (simp add: consistent_def did_def)
  have r: "run_body k ?g = (f', out)"
    using Assign_arg.prems(2) by simp
  from Assign_arg.IH [OF c r] obtain tr where
    "fr_trace f' = fr_trace ?g @ tr" "coherent (m_was_timeout (fr_ctx ?g)) (m_duration (fr_ctx ?g)) tr"
    "unwound (m_lock_holder (fr_ctx ?g)) tr"
    "m_duration (fr_ctx f') = timeout_held (m_duration (fr_ctx ?g)) tr"
    "m_was_timeout (fr_ctx f') = m_was_timeout (fr_ctx ?g)"
    "(out = Raised) = raised_in tr" by blast
  then show ?case
    by (intro exI [of _ "Assigned v # tr"]) (simp add: did_def raised_in_def)
qed


lemma wait_until_pred_report:
  "wait_until_pred d flag ws = Some r \<Longrightarrow>
   rel_time r = d \<and> wait_res r = (pred_now r \<or> stop_now r) \<and>
   (\<not> wait_res r \<longrightarrow> woken_by r = Some Expired) \<and> (flag \<longrightarrow> stop_now r)"
proof (induction d flag ws rule: wait_until_pred.induct)
  case (1 d flag)
  then show ?case by simp
next
  case (2 d flag c p ws)
  show ?case
  proof (cases "c = Expired \<or> pr_pred p \<or> flag \<or> pr_stop p")
    case True
    with "2.prems" show ?thesis by (auto simp: Let_def)
  next
    case False
    with "2.prems" have "wait_until_pred d (flag \<or> pr_stop p) ws = Some r"
      by (simp add: Let_def)
    with False "2.IH" [of "flag \<or> pr_stop p" "pr_pred p \<or> (flag \<or> pr_stop p)"] show ?thesis
      by simp
  qed
qed

lemma wait_for_report:
  "wait_for d flag p0 ws = Some r \<Longrightarrow>
   rel_time r = d \<and> wait_res r = (pred_now r \<or> stop_now r) \<and>
   (\<not> wait_res r \<longrightarrow> woken_by r = Some Expired) \<and> (flag \<longrightarrow> stop_now r)"
  using wait_until_pred_report [of d "flag \<or> pr_stop p0" ws r]
  by (auto simp: wait_for_def Let_def split: if_splits)

lemma wait_for_stop_set:
  "wait_for d True p0 ws =
     Some \<lparr>rel_time = d, wait_res = True, stop_now = True, pred_now = pr_pred p0,
           woken_by = None\<rparr>"
  by (simp add: wait_for_def)

lemma wait_until_pred_skips:
  "\<forall>(c, p) \<in> set pre. c \<noteq> Expired \<and> \<not> pr_pred p \<and> \<not> pr_stop p \<Longrightarrow>
   wait_until_pred d False (pre @ ws) = wait_until_pred d False ws"
  by (induction pre) (auto simp: Let_def)

lemma dispatch_sound:
  assumes "dispatch fx e w r (simple_thread_context_new True) = (f, out)"
  shows "out \<noteq> Terminated" "m_lock_holder (fr_ctx f)"
    "coherent (\<not> wait_res r) (thread_timeout w) (fr_trace f)"
    "unwound True (fr_trace f)"
    "get_new_timeout (fr_ctx f) = timeout_held (thread_timeout w) (fr_trace f)"
    "(out = Raised) = raised_in (fr_trace f)"
proof -
  let ?f0 = "\<lparr>fr_ctx = set_timeout (thread_timeout w)
                (set_was_timeout (\<not> wait_res r) (simple_thread_context_new True)),
              fr_holders = 0, fr_arg = seen_arg e w, fr_trace = []\<rparr>"
  have c: "consistent ?f0"
    by (simp add: consistent_def set_timeout_def set_was_timeout_def simple_thread_context_new_def)
  have r: "run_body (fx (seen_arg e w)) ?f0 = (f, out)"
    using assms by (simp add: dispatch_def Let_def)
  from run_body_lock [OF c r] show "out \<noteq> Terminated" "m_lock_holder (fr_ctx f)"
    by simp_all
  from run_body_trace [OF c r]
  show "coherent (\<not> wait_res r) (thread_timeout w) (fr_trace f)"
    "unwound True (fr_trace f)"
    "get_new_timeout (fr_ctx f) = timeout_held (thread_timeout w) (fr_trace f)"
    "(out = Raised) = raised_in (fr_trace f)"
    by (auto simp: set_timeout_def set_was_timeout_def simple_thread_context_new_def
          get_new_timeout_def)
qed

lemma iteration_not_terminate: "iteration fx e w \<noteq> Std_terminate"
  using dispatch_sound(1) [of fx e w]
  by (auto simp: iteration_def Let_def split: option.splits prod.splits)

lemma iteration_again:
  assumes "iteration fx e w = Loop_again w'"
  shows "\<exists>r c. wait_for (thread_timeout w) (m_thread_stop w) (s_first e) (s_wakes e) = Some r \<and> \<not> stop_now r \<and>
      calls w' = calls w @ [c] \<and> c_report c = r \<and> c_arg c = seen_arg e w \<and>
      rel_time r = thread_timeout w \<and> c_lock_held c \<and> c_outcome c \<noteq> Terminated \<and>
      coherent (\<not> wait_res r) (thread_timeout w) (c_trace c) \<and>
      unwound True (c_trace c) \<and>
      (c_outcome c = Raised) = raised_in (c_trace c) \<and>
      thread_timeout w' = timeout_held (thread_timeout w) (c_trace c) \<and>
      printed w' = (if c_outcome c = Raised then printed w @ [Exception_in_thread_procedure]
                    else printed w) \<and>
      m_thread w' = m_thread w \<and> m_thread_stop w' = m_thread_stop w \<and>
      m_thread_cv w' = m_thread_cv w"
proof -
  from assms obtain r where r: "wait_for (thread_timeout w) (m_thread_stop w) (s_first e) (s_wakes e) = Some r"
    and ns: "\<not> stop_now r"
    by (auto simp: iteration_def Let_def split: option.splits if_splits)
  obtain f out where d: "dispatch fx e w r (simple_thread_context_new True) = (f, out)"
    by (cases "dispatch fx e w r (simple_thread_context_new True)")
  note s = dispatch_sound [OF d]
  let ?c = "\<lparr>c_arg = seen_arg e w, c_report = r,
             c_trace = fr_trace f, c_outcome = out, c_lock_held = m_lock_holder (fr_ctx f)\<rparr>"
  have w': "w' = w\<lparr>thread_timeout := get_new_timeout (fr_ctx f), ax := fr_arg f,
                  printed := (if out = Raised then printed w @ [Exception_in_thread_procedure]
                              else printed w),
                  calls := calls w @ [?c]\<rparr>"
    using assms r ns d s(1) by (simp add: iteration_def Let_def)
  show ?thesis
    using r ns s wait_for_report [OF r]
    by (intro exI [of _ r] exI [of _ ?c]) (simp add: w')
qed

lemma sets_timeout_none: "\<not> sets_timeout tr \<Longrightarrow> timeout_held d tr = d"
  by (induction tr rule: sets_timeout.induct) simp_all

lemma coherent_was_timeout:
  "coherent t d tr \<Longrightarrow> Got_was_timeout b \<in> set tr \<Longrightarrow> b = t"
  by (induction t d tr rule: coherent.induct) auto

lemma coherent_get_timeout:
  "coherent t d (pre @ Got_timeout x # post) \<Longrightarrow> x = timeout_held d pre"
  by (induction t d pre rule: coherent.induct) auto

lemma thread_proc_returned:
  "m_thread w \<noteq> Running \<Longrightarrow> thread_proc fx es w = Some w"
  by (cases es) simp_all

lemma iteration_stop_seen:
  assumes "wait_for (thread_timeout w) (m_thread_stop w) (s_first e) (s_wakes e) = Some r" and "stop_now r"
  shows "iteration fx e w =
     Loop_exit (w\<lparr>m_thread_stop := True, m_thread := Returned_unjoined,
                  printed := printed w @ [Stop_requested]\<rparr>)"
  using assms by (simp add: iteration_def)

lemma wait_for_wake_with_pred:
  assumes "\<not> st" "\<not> pr_pred p0" "\<not> pr_stop p0"
    and "\<forall>(c', p') \<in> set pre. c' \<noteq> Expired \<and> \<not> pr_pred p' \<and> \<not> pr_stop p'"
    and "pr_pred p" "\<not> pr_stop p"
  shows "wait_for d st p0 (pre @ (c, p) # post) =
     Some \<lparr>rel_time = d, wait_res = True, stop_now = False, pred_now = True,
           woken_by = Some c\<rparr>"
  using assms wait_until_pred_skips [OF assms(4), of d "(c, p) # post"]
  by (simp add: wait_for_def)

lemma iteration_wait_cong:
  "wait_for (thread_timeout w) (m_thread_stop w) (s_first e) (s_wakes e) =
   wait_for (thread_timeout w) (m_thread_stop w) (s_first e') (s_wakes e') \<Longrightarrow>
   s_caller_assigns e = s_caller_assigns e' \<Longrightarrow> iteration fx e w = iteration fx e' w"
proof -
  assume wf: "wait_for (thread_timeout w) (m_thread_stop w) (s_first e) (s_wakes e) =
      wait_for (thread_timeout w) (m_thread_stop w) (s_first e') (s_wakes e')"
    and ca: "s_caller_assigns e = s_caller_assigns e'"
  have sa: "seen_arg e w = seen_arg e' w"
    using ca by (simp add: seen_arg_def)
  have d: "dispatch fx e w = dispatch fx e' w"
    using sa by (intro ext) (simp add: dispatch_def)
  show ?thesis
    unfolding iteration_def wf sa d by (rule refl)
qed

lemma thread_proc_stop_set:
  assumes "m_thread w = Running" "m_thread_stop w"
  shows "thread_proc fx [woken_once] w =
     Some (w\<lparr>m_thread := Returned_unjoined, printed := printed w @ [Stop_requested]\<rparr>)"
proof -
  have "iteration fx woken_once w =
     Loop_exit (w\<lparr>m_thread_stop := True, m_thread := Returned_unjoined,
                  printed := printed w @ [Stop_requested]\<rparr>)"
    using assms(2) by (intro iteration_stop_seen [where r =
      "\<lparr>rel_time = thread_timeout w, wait_res = True, stop_now = True,
        pred_now = pr_pred (s_first woken_once), woken_by = None\<rparr>"]) (simp_all add: wait_for_stop_set)
  moreover have "w\<lparr>m_thread_stop := True\<rparr> = w"
    using assms(2) by simp
  ultimately show ?thesis
    using assms(1) by simp
qed

lemma stop_cases:
  "stop fx w =
     Completed
       (case m_thread w of
          Not_started \<Rightarrow> w\<lparr>m_thread_stop := True, m_thread_cv := Suc (m_thread_cv w)\<rparr>
        | Joined \<Rightarrow> w\<lparr>m_thread_stop := True, m_thread_cv := Suc (m_thread_cv w)\<rparr>
        | Returned_unjoined \<Rightarrow>
            w\<lparr>m_thread_stop := True, m_thread_cv := Suc (m_thread_cv w), m_thread := Joined\<rparr>
        | Running \<Rightarrow>
            w\<lparr>m_thread_stop := True, m_thread_cv := Suc (m_thread_cv w), m_thread := Joined,
              printed := printed w @ [Stop_requested]\<rparr>)"
proof (cases "m_thread w")
  case Not_started
  then show ?thesis by (simp add: stop_def joinable_def)
next
  case Running
  let ?w2 = "w\<lparr>m_thread_stop := True, m_thread_cv := Suc (m_thread_cv w)\<rparr>"
  have "thread_proc fx [woken_once] ?w2 =
     Some (?w2\<lparr>m_thread := Returned_unjoined, printed := printed ?w2 @ [Stop_requested]\<rparr>)"
    using Running by (intro thread_proc_stop_set) simp_all
  then show ?thesis
    using Running by (simp add: stop_def join_def joinable_def)
next
  case Returned_unjoined
  then show ?thesis
    by (simp add: stop_def join_def joinable_def thread_proc_returned)
next
  case Joined
  then show ?thesis by (simp add: stop_def joinable_def)
qed

lemma start_new: "start t (simple_thread_new a) = Completed (started t a)"
  by (simp add: start_def started_def simple_thread_new_def joinable_def)

section \<open>The runs of the test program, evaluated\<close>

lemma test1_times_out:
  "iteration testing_app_fx times_out test1 = Loop_again test1_after_timeout"
  by (simp add: iteration_def dispatch_def seen_arg_def wait_for_def times_out_def unsatisfied_def
      test1_def started_def simple_thread_new_def testing_app_fx_def test1_after_timeout_def
      timed_out_call_def simple_thread_context_new_def set_timeout_def set_was_timeout_def
      was_timeout_def did_def unlock_cases destroy_unlock_holder_cases leave_def
      get_new_timeout_def)

lemma test1_event:
  "iteration testing_app_fx notified_on_event test1 = Loop_again test1_after_event"
  by (simp add: iteration_def dispatch_def seen_arg_def wait_for_def notified_on_event_def
      unsatisfied_def event_set_def
      test1_def started_def simple_thread_new_def testing_app_fx_def test1_after_event_def
      event_call_def simple_thread_context_new_def set_timeout_def set_was_timeout_def
      was_timeout_def did_def unlock_cases destroy_unlock_holder_cases leave_def
      get_new_timeout_def)

lemma test1_stop_seen:
  "wait_for (thread_timeout test1) (m_thread_stop test1)
     (s_first stopped_while_waiting) (s_wakes stopped_while_waiting)
     = Some \<lparr>rel_time = 1000000000, wait_res = True, stop_now = True, pred_now = False,
             woken_by = Some Notified\<rparr>"
  by (simp add: wait_for_def stopped_while_waiting_def unsatisfied_def stop_stored_def
      test1_def started_def simple_thread_new_def)

lemma test1_event_wait:
  "wait_for (thread_timeout test1) (m_thread_stop test1)
     (s_first notified_on_event) (s_wakes notified_on_event)
     = Some event_report"
  by (simp add: wait_for_def notified_on_event_def unsatisfied_def event_set_def
      test1_def started_def simple_thread_new_def event_report_def)

lemma test1_event_dispatch:
  "dispatch testing_app_fx notified_on_event test1 event_report (simple_thread_context_new True)
     = (event_frame, Raised)"
  by (simp add: dispatch_def seen_arg_def notified_on_event_def event_report_def
      test1_def started_def simple_thread_new_def testing_app_fx_def event_frame_def
      simple_thread_context_new_def set_timeout_def set_was_timeout_def
      was_timeout_def did_def unlock_cases destroy_unlock_holder_cases leave_def)

lemma test1_in_vain:
  "iteration asks_was_timeout notified_in_vain test1 =
     Loop_again (test1\<lparr>calls :=
       [\<lparr>c_arg = (False, ''abc''),
         c_report = \<lparr>rel_time = 1000000000, wait_res = False, stop_now = False,
                     pred_now = False,
                     woken_by = Some Expired\<rparr>,
         c_trace = [Got_was_timeout True], c_outcome = Returned, c_lock_held = True\<rparr>]\<rparr>)"
  by (simp add: iteration_def dispatch_def seen_arg_def wait_for_def notified_in_vain_def
      unsatisfied_def test1_def started_def simple_thread_new_def asks_was_timeout_def
      simple_thread_context_new_def set_timeout_def set_was_timeout_def
      was_timeout_def did_def leave_def get_new_timeout_def)

lemma test1_times_out_again:
  "iteration testing_app_fx times_out test1_after_timeout = Loop_again test1_after_two_timeouts"
  by (simp add: iteration_def dispatch_def seen_arg_def wait_for_def times_out_def unsatisfied_def
      test1_def started_def simple_thread_new_def testing_app_fx_def test1_after_timeout_def
      test1_after_two_timeouts_def
      timed_out_call_def simple_thread_context_new_def set_timeout_def set_was_timeout_def
      was_timeout_def did_def unlock_cases destroy_unlock_holder_cases leave_def
      get_new_timeout_def)

lemma test1_late:
  "iteration testing_app_fx times_out test1_after_event =
     Loop_again test1_after_event_and_timeout"
  by (simp add: iteration_def dispatch_def seen_arg_def wait_for_def times_out_def unsatisfied_def
      test1_def started_def simple_thread_new_def testing_app_fx_def test1_after_event_def
      test1_after_event_and_timeout_def event_call_def late_call_def
      simple_thread_context_new_def set_timeout_def set_was_timeout_def
      was_timeout_def did_def unlock_cases destroy_unlock_holder_cases leave_def
      get_new_timeout_def)

section \<open>Stop requests\<close>

text \<open>
  C4. Whenever the wait of an iteration returns with the stop flag set, the iteration leaves
  the loop: the thread function returns, one line \<^verbatim>\<open>Stop requested\<close> is printed, and the
  callback is not invoked (the history of calls is unchanged). The thread function that
  has returned does nothing more, whatever happens around it. Conversely every
  invocation of the callback follows a wait that did not see the stop flag.
\<close>

theorem stop_wake_ends_loop_without_callback:
  "(\<forall>r. wait_for (thread_timeout w) (m_thread_stop w) (s_first e) (s_wakes e) = Some r \<and> stop_now r \<longrightarrow>
      (\<exists>w'. iteration fx e w = Loop_exit w' \<and> calls w' = calls w \<and> ax w' = ax w \<and>
            printed w' = printed w @ [Stop_requested] \<and> m_thread w' = Returned_unjoined \<and>
            (m_thread w = Running \<longrightarrow> thread_proc fx (e # es) w = Some w') \<and>
            thread_proc fx es' w' = Some w')) \<and>
   (\<forall>w'. iteration fx e w = Loop_again w' \<longrightarrow> \<not> stop_now (c_report (last (calls w'))))"
proof (intro conjI allI impI)
  fix r
  assume a: "wait_for (thread_timeout w) (m_thread_stop w) (s_first e) (s_wakes e) = Some r \<and> stop_now r"
  let ?w' = "w\<lparr>m_thread_stop := True, m_thread := Returned_unjoined,
               printed := printed w @ [Stop_requested]\<rparr>"
  have i: "iteration fx e w = Loop_exit ?w'"
    using a by (simp add: iteration_stop_seen)
  have t: "thread_proc fx es' ?w' = Some ?w'"
    by (rule thread_proc_returned) simp
  show "\<exists>w'. iteration fx e w = Loop_exit w' \<and> calls w' = calls w \<and> ax w' = ax w \<and>
            printed w' = printed w @ [Stop_requested] \<and> m_thread w' = Returned_unjoined \<and>
            (m_thread w = Running \<longrightarrow> thread_proc fx (e # es) w = Some w') \<and>
            thread_proc fx es' w' = Some w'"
    using i t by (intro exI [of _ ?w']) simp
next
  fix w'
  assume "iteration fx e w = Loop_again w'"
  from iteration_again [OF this] show "\<not> stop_now (c_report (last (calls w')))"
    by auto
qed

theorem stop_wake_ends_loop_without_callback_witness:
  "iteration testing_app_fx stopped_while_waiting test1 = Loop_exit test1_after_stop \<and>
   calls test1_after_stop = [] \<and>
   thread_proc testing_app_fx [stopped_while_waiting, times_out] test1 = Some test1_after_stop \<and>
   thread_proc testing_app_fx [times_out] test1_after_stop = Some test1_after_stop \<and>
   stop_now (c_report (last (calls test1_after_timeout))) = False"
proof -
  have r: "m_thread test1 = Running"
    by (simp add: test1_def started_def)
  have c: "calls test1 = []"
    by (simp add: test1_def started_def simple_thread_new_def)
  from stop_wake_ends_loop_without_callback
    [of test1 stopped_while_waiting testing_app_fx "[times_out]" "[times_out]"]
    test1_stop_seen
  obtain w' where w': "iteration testing_app_fx stopped_while_waiting test1 = Loop_exit w'"
    "calls w' = calls test1"
    "thread_proc testing_app_fx [stopped_while_waiting, times_out] test1 = Some w'"
    "thread_proc testing_app_fx [times_out] w' = Some w'"
    using r by auto
  have "iteration testing_app_fx stopped_while_waiting test1 = Loop_exit test1_after_stop"
    using iteration_stop_seen [OF test1_stop_seen, of testing_app_fx]
    by (simp add: test1_after_stop_def test1_def started_def simple_thread_new_def)
  with w'(1) have "w' = test1_after_stop" by simp
  moreover have "\<not> stop_now (c_report (last (calls test1_after_timeout)))"
    using stop_wake_ends_loop_without_callback [of test1 times_out testing_app_fx] test1_times_out
    by blast
  ultimately show ?thesis using w' c by simp
qed


text \<open>
  C8. \<^verbatim>\<open>stop()\<close> returns from every state of the worker, with the stop flag set and the
  thread joined if there was one; the callback is not invoked meanwhile. A further
  \<^verbatim>\<open>stop()\<close> returns as well and changes nothing but the count of signals on the
  condition variable: the handle is no longer joinable, so there is no second join. The
  destructor does what \<^verbatim>\<open>stop()\<close> does and ends in the same state, also on a worker that
  was stopped before.
\<close>

theorem stop_twice_and_destructor:
  "\<exists>w1. stop fx w = Completed w1 \<and> m_thread_stop w1 \<and> \<not> joinable (m_thread w1) \<and>
      calls w1 = calls w \<and>
      stop fx w1 = Completed (w1\<lparr>m_thread_cv := Suc (m_thread_cv w1)\<rparr>) \<and>
      destructor fx w = Completed w1 \<and>
      destructor fx w1 = Completed (w1\<lparr>m_thread_cv := Suc (m_thread_cv w1)\<rparr>)"
proof (cases "m_thread w")
  case Not_started
  then show ?thesis
    by (simp add: stop_cases [of fx w] destructor_def joinable_def stop_cases)
next
  case Running
  then show ?thesis
    by (simp add: stop_cases [of fx w] destructor_def joinable_def stop_cases)
next
  case Returned_unjoined
  then show ?thesis
    by (simp add: stop_cases [of fx w] destructor_def joinable_def stop_cases)
next
  case Joined
  then show ?thesis
    by (simp add: stop_cases [of fx w] destructor_def joinable_def stop_cases)
qed

theorem stop_twice_and_destructor_witness:
  "stop testing_app_fx test1 = Completed test1_stopped \<and>
   stop testing_app_fx test1_stopped = Completed (test1_stopped\<lparr>m_thread_cv := 2\<rparr>) \<and>
   destructor testing_app_fx test1 = Completed test1_stopped \<and>
   destructor testing_app_fx test1_stopped = Completed (test1_stopped\<lparr>m_thread_cv := 2\<rparr>) \<and>
   m_thread test1_stopped = Joined"
proof -
  have s: "stop testing_app_fx test1 = Completed test1_stopped"
    by (simp add: stop_cases test1_def started_def simple_thread_new_def test1_stopped_def)
  have c: "m_thread_cv test1_stopped = 1" "m_thread test1_stopped = Joined"
    by (simp_all add: test1_stopped_def)
  from stop_twice_and_destructor [of testing_app_fx test1] s
  have "stop testing_app_fx test1_stopped =
          Completed (test1_stopped\<lparr>m_thread_cv := Suc (m_thread_cv test1_stopped)\<rparr>)"
    "destructor testing_app_fx test1 = Completed test1_stopped"
    "destructor testing_app_fx test1_stopped =
          Completed (test1_stopped\<lparr>m_thread_cv := Suc (m_thread_cv test1_stopped)\<rparr>)"
    by auto
  with s c show ?thesis by simp
qed

text \<open>
  C10. On a worker that was never started \<^verbatim>\<open>stop()\<close> returns: it sets the stop flag and
  signals the condition variable once, and it does not join, since the handle is not
  joinable; the handle stays as it was. The destructor of such a worker returns in the same
  state.
\<close>

theorem stop_before_start:
  "m_thread (simple_thread_new a) = Not_started \<and>
   \<not> joinable (m_thread (simple_thread_new a)) \<and>
   stop fx (simple_thread_new a) =
     Completed ((simple_thread_new a)\<lparr>m_thread_stop := True, m_thread_cv := 1\<rparr>) \<and>
   destructor fx (simple_thread_new a) =
     Completed ((simple_thread_new a)\<lparr>m_thread_stop := True, m_thread_cv := 1\<rparr>)"
  by (simp add: stop_def destructor_def joinable_def simple_thread_new_def)

theorem stop_before_start_witness:
  "stop testing_app_fx never_started =
     Completed \<lparr>m_thread_stop = True, m_thread = Not_started, m_thread_cv = 1,
                thread_timeout = 0, ax = (False, ''abc''), printed = [], calls = []\<rparr> \<and>
   destructor testing_app_fx never_started =
     Completed \<lparr>m_thread_stop = True, m_thread = Not_started, m_thread_cv = 1,
                thread_timeout = 0, ax = (False, ''abc''), printed = [], calls = []\<rparr>"
  using stop_before_start [of "(False, ''abc'')" testing_app_fx]
  by (simp add: never_started_def simple_thread_new_def)

section \<open>The wake reason\<close>

text \<open>
  C5. In every iteration that reaches the callback, each call of \<^verbatim>\<open>was_timeout()\<close> returns
  the negation of the wait condition, predicate or stop flag, as it was evaluated last
  before the wait returned. When that value is true the wait ended at its deadline.
\<close>

theorem was_timeout_is_negated_wait_condition:
  assumes "iteration fx e w = Loop_again w'"
  shows "\<exists>r. wait_for (thread_timeout w) (m_thread_stop w) (s_first e) (s_wakes e) = Some r \<and>
      c_report (last (calls w')) = r \<and>
      (\<forall>b. Got_was_timeout b \<in> set (c_trace (last (calls w'))) \<longrightarrow>
           b = (\<not> (pred_now r \<or> stop_now r))) \<and>
      (\<not> (pred_now r \<or> stop_now r) \<longrightarrow> woken_by r = Some Expired)"
proof -
  from iteration_again [OF assms] obtain r c where
    r: "wait_for (thread_timeout w) (m_thread_stop w) (s_first e) (s_wakes e) = Some r"
    and c: "calls w' = calls w @ [c]" "c_report c = r"
    and co: "coherent (\<not> wait_res r) (thread_timeout w) (c_trace c)"
    by blast
  have l: "last (calls w') = c" using c(1) by simp
  from wait_for_report [OF r] have
    wr: "wait_res r = (pred_now r \<or> stop_now r)"
    and ex: "\<not> wait_res r \<longrightarrow> woken_by r = Some Expired"
    by simp_all
  have "\<forall>b. Got_was_timeout b \<in> set (c_trace c) \<longrightarrow> b = (\<not> (pred_now r \<or> stop_now r))"
    using coherent_was_timeout [OF co] wr by blast
  then show ?thesis
    using r c(2) l ex wr by (intro exI [of _ r]) simp
qed

theorem was_timeout_is_negated_wait_condition_witness:
  "iteration testing_app_fx notified_on_event test1 = Loop_again test1_after_event \<and>
   c_trace (last (calls test1_after_event)) =
     [Got_was_timeout False, Unlocked, Got_was_timeout False, Assigned (False, ''abc''),
      Did_set_timeout 2000000000, Threw, Relocked] \<and>
   pred_now (c_report (last (calls test1_after_event))) = True \<and>
   iteration testing_app_fx times_out test1 = Loop_again test1_after_timeout \<and>
   c_trace (last (calls test1_after_timeout)) =
     [Got_was_timeout True, Unlocked, Got_was_timeout True, Relocked] \<and>
   pred_now (c_report (last (calls test1_after_timeout))) = False \<and>
   stop_now (c_report (last (calls test1_after_timeout))) = False \<and>
   woken_by (c_report (last (calls test1_after_timeout))) = Some Expired"
proof -
  from was_timeout_is_negated_wait_condition [OF test1_event]
  have "Got_was_timeout False \<in> set (c_trace (last (calls test1_after_event))) \<longrightarrow>
        False = (\<not> (pred_now (c_report (last (calls test1_after_event))) \<or>
                     stop_now (c_report (last (calls test1_after_event)))))"
    by blast
  moreover have "c_trace (last (calls test1_after_event)) =
     [Got_was_timeout False, Unlocked, Got_was_timeout False, Assigned (False, ''abc''),
      Did_set_timeout 2000000000, Threw, Relocked]"
    by (simp add: test1_after_event_def event_call_def)
  moreover have "stop_now (c_report (last (calls test1_after_event))) = False"
    by (simp add: test1_after_event_def event_call_def)
  ultimately have p: "pred_now (c_report (last (calls test1_after_event))) = True"
    by simp
  from was_timeout_is_negated_wait_condition [OF test1_times_out]
  have "(Got_was_timeout True \<in> set (c_trace (last (calls test1_after_timeout))) \<longrightarrow>
         True = (\<not> (pred_now (c_report (last (calls test1_after_timeout))) \<or>
                     stop_now (c_report (last (calls test1_after_timeout)))))) \<and>
        (\<not> (pred_now (c_report (last (calls test1_after_timeout))) \<or>
             stop_now (c_report (last (calls test1_after_timeout)))) \<longrightarrow>
         woken_by (c_report (last (calls test1_after_timeout))) = Some Expired)"
    by blast
  moreover have t: "c_trace (last (calls test1_after_timeout)) =
     [Got_was_timeout True, Unlocked, Got_was_timeout True, Relocked]"
    by (simp add: test1_after_timeout_def timed_out_call_def)
  ultimately have q: "pred_now (c_report (last (calls test1_after_timeout))) = False"
    "stop_now (c_report (last (calls test1_after_timeout))) = False"
    "woken_by (c_report (last (calls test1_after_timeout))) = Some Expired"
    by simp_all
  show ?thesis
    using p q t test1_event test1_times_out
    by (simp add: test1_after_event_def event_call_def)
qed

text \<open>
  C3, as amended. If a wake-up that is not the deadline (a \<^verbatim>\<open>notify()\<close> or a spurious one)
  comes at a moment when the predicate evaluates true, no stop having been requested and
  no earlier evaluation having been true, the wait ends at that wake-up, whatever would
  have followed, the callback is invoked and \<^verbatim>\<open>was_timeout()\<close> returns false in that
  invocation. A \<^verbatim>\<open>notify()\<close> at a moment when the predicate is false and no stop is
  requested changes nothing: the iteration goes on as if there had been no notification.
\<close>

theorem wake_with_predicate_true_ends_the_wait:
  "(\<not> m_thread_stop w \<and> \<not> pr_pred (s_first e) \<and> \<not> pr_stop (s_first e) \<and>
    s_wakes e = pre @ (c, p) # post \<and>
    (\<forall>(c', p') \<in> set pre. c' \<noteq> Expired \<and> \<not> pr_pred p' \<and> \<not> pr_stop p') \<and>
    c \<noteq> Expired \<and> pr_pred p \<and> \<not> pr_stop p \<longrightarrow>
    (\<exists>w'. iteration fx e w = Loop_again w' \<and>
          c_report (last (calls w')) =
            \<lparr>rel_time = thread_timeout w, wait_res = True, stop_now = False, pred_now = True,
              woken_by = Some c\<rparr> \<and>
          (\<forall>b. Got_was_timeout b \<in> set (c_trace (last (calls w'))) \<longrightarrow> \<not> b))) \<and>
   (\<not> m_thread_stop w \<and> \<not> pr_pred (s_first e) \<and> \<not> pr_stop (s_first e) \<and>
    s_wakes e = (Notified, q) # rest \<and> \<not> pr_pred q \<and> \<not> pr_stop q \<longrightarrow>
    iteration fx e w = iteration fx (e\<lparr>s_wakes := rest\<rparr>) w)"
proof (intro conjI impI)
  assume a: "\<not> m_thread_stop w \<and> \<not> pr_pred (s_first e) \<and> \<not> pr_stop (s_first e) \<and>
    s_wakes e = pre @ (c, p) # post \<and>
    (\<forall>(c', p') \<in> set pre. c' \<noteq> Expired \<and> \<not> pr_pred p' \<and> \<not> pr_stop p') \<and>
    c \<noteq> Expired \<and> pr_pred p \<and> \<not> pr_stop p"
  let ?r = "\<lparr>rel_time = thread_timeout w, wait_res = True, stop_now = False, pred_now = True,
              woken_by = Some c\<rparr>"
  have r: "wait_for (thread_timeout w) (m_thread_stop w) (s_first e) (s_wakes e) = Some ?r"
    using a wait_for_wake_with_pred
      [of "m_thread_stop w" "s_first e" pre p "thread_timeout w" c post] by simp
  obtain f out where d: "dispatch fx e w ?r (simple_thread_context_new True) = (f, out)"
    by (cases "dispatch fx e w ?r (simple_thread_context_new True)")
  have nt: "out \<noteq> Terminated" by (rule dispatch_sound(1) [OF d])
  then obtain w' where w': "iteration fx e w = Loop_again w'"
    using r d by (simp add: iteration_def)
  from iteration_again [OF w'] r obtain cl where
    cl: "calls w' = calls w @ [cl]" "c_report cl = ?r"
        "coherent (\<not> wait_res ?r) (thread_timeout w) (c_trace cl)"
    by auto
  have l: "last (calls w') = cl" using cl(1) by simp
  have "\<forall>b. Got_was_timeout b \<in> set (c_trace cl) \<longrightarrow> \<not> b"
    using coherent_was_timeout [OF cl(3)] by auto
  then show "\<exists>w'. iteration fx e w = Loop_again w' \<and>
          c_report (last (calls w')) = ?r \<and>
          (\<forall>b. Got_was_timeout b \<in> set (c_trace (last (calls w'))) \<longrightarrow> \<not> b)"
    using w' cl(2) l by (intro exI [of _ w']) simp
next
  assume b: "\<not> m_thread_stop w \<and> \<not> pr_pred (s_first e) \<and> \<not> pr_stop (s_first e) \<and>
    s_wakes e = (Notified, q) # rest \<and> \<not> pr_pred q \<and> \<not> pr_stop q"
  show "iteration fx e w = iteration fx (e\<lparr>s_wakes := rest\<rparr>) w"
    by (rule iteration_wait_cong) (use b in \<open>simp_all add: wait_for_def\<close>)
qed

text \<open>
  The claim as stated fails when \<^verbatim>\<open>notify()\<close> is called while the predicate is false: the
  wait goes on until the deadline, and the invocation that follows has \<^verbatim>\<open>was_timeout()\<close>
  true.
\<close>

theorem notify_alone_counterexample:
  "s_wakes notified_in_vain = [(Notified, unsatisfied), (Expired, unsatisfied)] \<and>
   m_thread_stop test1 = False \<and>
   iteration asks_was_timeout notified_in_vain test1 =
     Loop_again (test1\<lparr>calls :=
       [\<lparr>c_arg = (False, ''abc''),
         c_report = \<lparr>rel_time = 1000000000, wait_res = False, stop_now = False,
                     pred_now = False,
                     woken_by = Some Expired\<rparr>,
         c_trace = [Got_was_timeout True], c_outcome = Returned, c_lock_held = True\<rparr>]\<rparr>)"
  using test1_in_vain
  by (simp add: notified_in_vain_def test1_def started_def simple_thread_new_def)

theorem wake_with_predicate_true_ends_the_wait_witness:
  "s_wakes notified_on_event =
     [(Spurious, unsatisfied)] @ (Notified, event_set) # [(Expired, unsatisfied)] \<and>
   pr_pred unsatisfied = False \<and>
   pr_pred event_set = True \<and>
   iteration testing_app_fx notified_on_event test1 = Loop_again test1_after_event \<and>
   c_report (last (calls test1_after_event)) =
     \<lparr>rel_time = 1000000000, wait_res = True, stop_now = False, pred_now = True,
       woken_by = Some Notified\<rparr> \<and>
   s_wakes notified_in_vain = (Notified, unsatisfied) # [(Expired, unsatisfied)] \<and>
   pr_pred unsatisfied = False \<and>
   iteration asks_was_timeout notified_in_vain test1 =
     iteration asks_was_timeout (notified_in_vain\<lparr>s_wakes := [(Expired, unsatisfied)]\<rparr>) test1"
proof -
  have t: "\<not> m_thread_stop test1" "thread_timeout test1 = 1000000000"
    by (simp_all add: test1_def started_def simple_thread_new_def)
  have e: "\<not> pr_pred (s_first notified_on_event)" "\<not> pr_stop (s_first notified_on_event)"
    "s_wakes notified_on_event =
       [(Spurious, unsatisfied)] @ (Notified, event_set) # [(Expired, unsatisfied)]"
    "\<forall>(c', p') \<in> set [(Spurious, unsatisfied)]. c' \<noteq> Expired \<and> \<not> pr_pred p' \<and> \<not> pr_stop p'"
    "pr_pred event_set" "\<not> pr_stop event_set"
    by (simp_all add: notified_on_event_def unsatisfied_def event_set_def)
  have v: "\<not> pr_pred (s_first notified_in_vain)" "\<not> pr_stop (s_first notified_in_vain)"
    "s_wakes notified_in_vain = (Notified, unsatisfied) # [(Expired, unsatisfied)]"
    "\<not> pr_pred unsatisfied" "\<not> pr_stop unsatisfied"
    by (simp_all add: notified_in_vain_def unsatisfied_def)
  from wake_with_predicate_true_ends_the_wait
    [of test1 notified_on_event "[(Spurious, unsatisfied)]" Notified event_set
        "[(Expired, unsatisfied)]" testing_app_fx unsatisfied "[]"] t e
  obtain w' where w': "iteration testing_app_fx notified_on_event test1 = Loop_again w'"
    "c_report (last (calls w')) =
       \<lparr>rel_time = 1000000000, wait_res = True, stop_now = False, pred_now = True,
       woken_by = Some Notified\<rparr>"
    by auto
  from w'(1) test1_event have w: "w' = test1_after_event" by simp
  from wake_with_predicate_true_ends_the_wait
    [of test1 notified_in_vain "[]" Notified event_set "[]"
        asks_was_timeout unsatisfied "[(Expired, unsatisfied)]"] t v
  have "iteration asks_was_timeout notified_in_vain test1 =
     iteration asks_was_timeout (notified_in_vain\<lparr>s_wakes := [(Expired, unsatisfied)]\<rparr>) test1"
    by blast
  with w' w e v test1_event show ?thesis by simp
qed

section \<open>The timeout of the next wait\<close>

text \<open>
  C7. In every iteration whose callback does not call \<^verbatim>\<open>set_timeout\<close>, the loop variable
  \<^verbatim>\<open>thread_timeout\<close> is after the iteration what it was before, which is the timeout the
  wait of this iteration was called with; the wait of the next iteration is called with
  the same timeout.
\<close>

theorem timeout_kept_without_set_timeout:
  assumes "iteration fx e w = Loop_again w'"
    and "\<not> sets_timeout (c_trace (last (calls w')))"
  shows "thread_timeout w' = thread_timeout w \<and>
    rel_time (c_report (last (calls w'))) = thread_timeout w \<and>
    (\<forall>e2 w2. iteration fx e2 w' = Loop_again w2 \<longrightarrow>
       rel_time (c_report (last (calls w2))) = rel_time (c_report (last (calls w'))))"
proof -
  from iteration_again [OF assms(1)] obtain r c where
    c: "calls w' = calls w @ [c]" "c_report c = r" "rel_time r = thread_timeout w"
    and t: "thread_timeout w' = timeout_held (thread_timeout w) (c_trace c)"
    by blast
  have l: "last (calls w') = c" using c(1) by simp
  with assms(2) have "\<not> sets_timeout (c_trace c)" by simp
  from sets_timeout_none [OF this] t have k: "thread_timeout w' = thread_timeout w"
    by simp
  have "rel_time (c_report (last (calls w2))) = thread_timeout w'"
    if "iteration fx e2 w' = Loop_again w2" for e2 w2
  proof -
    from iteration_again [OF that] obtain r2 c2 where
      "calls w2 = calls w' @ [c2]" "c_report c2 = r2" "rel_time r2 = thread_timeout w'"
      by blast
    then show ?thesis by simp
  qed
  with k c l show ?thesis by simp
qed

theorem timeout_kept_without_set_timeout_witness:
  "iteration testing_app_fx times_out test1 = Loop_again test1_after_timeout \<and>
   sets_timeout (c_trace (last (calls test1_after_timeout))) = False \<and>
   thread_timeout test1 = 1000000000 \<and>
   thread_timeout test1_after_timeout = 1000000000 \<and>
   rel_time (c_report (last (calls test1_after_timeout))) = 1000000000 \<and>
   iteration testing_app_fx times_out test1_after_timeout =
     Loop_again test1_after_two_timeouts \<and>
   rel_time (c_report (last (calls test1_after_two_timeouts))) = 1000000000"
proof -
  have n: "\<not> sets_timeout (c_trace (last (calls test1_after_timeout)))"
    by (simp add: test1_after_timeout_def timed_out_call_def)
  have t: "thread_timeout test1 = 1000000000"
    by (simp add: test1_def started_def)
  note k = timeout_kept_without_set_timeout [OF test1_times_out n]
  from k have a: "thread_timeout test1_after_timeout = thread_timeout test1"
    "rel_time (c_report (last (calls test1_after_timeout))) = thread_timeout test1"
    by simp_all
  from k test1_times_out_again
  have "rel_time (c_report (last (calls test1_after_two_timeouts))) =
        rel_time (c_report (last (calls test1_after_timeout)))"
    by blast
  with a t n test1_times_out test1_times_out_again show ?thesis by simp
qed

text \<open>
  C1. The context has one duration member, which \<^verbatim>\<open>set_timeout\<close> overwrites and
  \<^verbatim>\<open>get_timeout\<close> returns. After a wait with a timeout of one second, a callback that
  calls \<^verbatim>\<open>set_timeout\<close> with two seconds and then \<^verbatim>\<open>get_timeout\<close> is handed two seconds,
  not the timeout of the wait that has just ended.
\<close>

theorem get_timeout_after_set_timeout:
  "iteration (sets_then_gets 2000000000) times_out test1 =
     Loop_again (test1\<lparr>thread_timeout := 2000000000, calls :=
       [\<lparr>c_arg = (False, ''abc''),
         c_report = \<lparr>rel_time = 1000000000, wait_res = False, stop_now = False,
                     pred_now = False,
                     woken_by = Some Expired\<rparr>,
         c_trace = [Did_set_timeout 2000000000, Got_timeout 2000000000],
         c_outcome = Returned, c_lock_held = True\<rparr>]\<rparr>)"
  by (simp add: iteration_def dispatch_def seen_arg_def wait_for_def times_out_def
      unsatisfied_def test1_def started_def simple_thread_new_def sets_then_gets_def
      simple_thread_context_new_def set_timeout_def set_was_timeout_def get_timeout_def
      did_def leave_def get_new_timeout_def)

text \<open>
  What does hold: in every invocation \<^verbatim>\<open>get_timeout()\<close> returns the duration stored last,
  which is the timeout of the wait that has just ended as long as the callback has not
  called \<^verbatim>\<open>set_timeout\<close>.
\<close>

lemma get_timeout_returns_duration_stored_last:
  assumes "iteration fx e w = Loop_again w'"
    and "c_trace (last (calls w')) = pre @ Got_timeout x # post"
  shows "x = timeout_held (thread_timeout w) pre"
proof -
  from iteration_again [OF assms(1)] obtain r c where
    c: "calls w' = calls w @ [c]" "c_report c = r"
    and co: "coherent (\<not> wait_res r) (thread_timeout w) (c_trace c)"
    by blast
  have "last (calls w') = c" using c(1) by simp
  with assms(2) co show ?thesis
    by (auto dest: coherent_get_timeout)
qed

section \<open>Exceptions of the callback\<close>

text \<open>
  C2. In every iteration whose wait returned without the stop flag and whose callback
  raised, the exception does not leave the iteration: the loop goes on to its next
  iteration, exactly one line \<^verbatim>\<open>Exception in thread procedure...\<close> is printed, and the
  timeout of the next wait is the duration the context held when the callback was left,
  that is the argument of the last \<^verbatim>\<open>set_timeout\<close> made before the exception, or the
  timeout of this iteration's wait when there was none.
\<close>

theorem callback_exception_is_caught_and_logged:
  assumes "wait_for (thread_timeout w) (m_thread_stop w) (s_first e) (s_wakes e) = Some r"
    and "\<not> stop_now r"
    and "dispatch fx e w r (simple_thread_context_new True) = (f, Raised)"
  shows "\<exists>w'. iteration fx e w = Loop_again w' \<and>
      printed w' = printed w @ [Exception_in_thread_procedure] \<and>
      c_outcome (last (calls w')) = Raised \<and>
      m_thread w' = m_thread w \<and> m_thread_stop w' = m_thread_stop w \<and>
      (m_thread w = Running \<longrightarrow> thread_proc fx (e # es) w = thread_proc fx es w') \<and>
      thread_timeout w' = get_new_timeout (fr_ctx f) \<and>
      thread_timeout w' = timeout_held (thread_timeout w) (fr_trace f) \<and>
      (\<forall>e2 w2. iteration fx e2 w' = Loop_again w2 \<longrightarrow>
         rel_time (c_report (last (calls w2))) = get_new_timeout (fr_ctx f))"
proof -
  let ?c = "\<lparr>c_arg = seen_arg e w, c_report = r,
             c_trace = fr_trace f, c_outcome = Raised, c_lock_held = m_lock_holder (fr_ctx f)\<rparr>"
  let ?w' = "w\<lparr>thread_timeout := get_new_timeout (fr_ctx f), ax := fr_arg f,
               printed := printed w @ [Exception_in_thread_procedure],
               calls := calls w @ [?c]\<rparr>"
  have i: "iteration fx e w = Loop_again ?w'"
    using assms by (simp add: iteration_def)
  have h: "get_new_timeout (fr_ctx f) = timeout_held (thread_timeout w) (fr_trace f)"
    by (rule dispatch_sound(5) [OF assms(3)])
  have "rel_time (c_report (last (calls w2))) = get_new_timeout (fr_ctx f)"
    if "iteration fx e2 ?w' = Loop_again w2" for e2 w2
  proof -
    from iteration_again [OF that] obtain r2 c2 where
      "calls w2 = calls ?w' @ [c2]" "c_report c2 = r2" "rel_time r2 = thread_timeout ?w'"
      by blast
    then show ?thesis by simp
  qed
  then show ?thesis
    using i h by (intro exI [of _ ?w']) simp
qed

theorem callback_exception_is_caught_and_logged_witness:
  "wait_for (thread_timeout test1) (m_thread_stop test1)
     (s_first notified_on_event) (s_wakes notified_on_event)
     = Some event_report \<and>
   stop_now event_report = False \<and>
   dispatch testing_app_fx notified_on_event test1 event_report (simple_thread_context_new True)
     = (event_frame, Raised) \<and>
   iteration testing_app_fx notified_on_event test1 = Loop_again test1_after_event \<and>
   printed test1 = [] \<and>
   printed test1_after_event = [Exception_in_thread_procedure] \<and>
   thread_timeout test1 = 1000000000 \<and>
   thread_timeout test1_after_event = 2000000000 \<and>
   thread_proc testing_app_fx [notified_on_event, times_out] test1 =
     thread_proc testing_app_fx [times_out] test1_after_event \<and>
   iteration testing_app_fx times_out test1_after_event =
     Loop_again test1_after_event_and_timeout \<and>
   rel_time (c_report (last (calls test1_after_event_and_timeout))) = 2000000000"
proof -
  have n: "\<not> stop_now event_report"
    by (simp add: event_report_def)
  have r: "m_thread test1 = Running" "printed test1 = []" "thread_timeout test1 = 1000000000"
    by (simp_all add: test1_def started_def simple_thread_new_def)
  have g: "get_new_timeout (fr_ctx event_frame) = 2000000000"
    by (simp add: event_frame_def get_new_timeout_def)
  from callback_exception_is_caught_and_logged
    [OF test1_event_wait n test1_event_dispatch, of "[times_out]"]
  obtain w' where w': "iteration testing_app_fx notified_on_event test1 = Loop_again w'"
    "printed w' = printed test1 @ [Exception_in_thread_procedure]"
    "thread_timeout w' = get_new_timeout (fr_ctx event_frame)"
    "thread_proc testing_app_fx [notified_on_event, times_out] test1 =
       thread_proc testing_app_fx [times_out] w'"
    "\<forall>e2 w2. iteration testing_app_fx e2 w' = Loop_again w2 \<longrightarrow>
       rel_time (c_report (last (calls w2))) = get_new_timeout (fr_ctx event_frame)"
    using r(1) by blast
  from w'(1) test1_event have e: "w' = test1_after_event" by simp
  with w'(5) test1_late
  have "rel_time (c_report (last (calls test1_after_event_and_timeout))) =
        get_new_timeout (fr_ctx event_frame)"
    by blast
  with e w' r g n test1_event_wait test1_event_dispatch test1_late show ?thesis by simp
qed

text \<open>
  C9. No iteration ends in \<^verbatim>\<open>std::terminate\<close>, and whenever the callback has been left,
  by return or by exception, the loop's lock owns the mutex: that is its state in the
  \<^verbatim>\<open>catch\<close> handler and where the next timeout is read back. In the trace of the
  invocation an exception is followed by the relock of the holder that was alive when it
  was raised, and by nothing else. The outcome is an exception exactly when the trace has one.
\<close>

theorem lock_is_held_when_the_callback_has_ended:
  "iteration fx e w \<noteq> Std_terminate \<and>
   (\<forall>w'. iteration fx e w = Loop_again w' \<longrightarrow>
      c_lock_held (last (calls w')) \<and>
      unwound True (c_trace (last (calls w'))) \<and>
      (c_outcome (last (calls w')) = Raised) = raised_in (c_trace (last (calls w'))))"
proof (intro conjI allI impI)
  show "iteration fx e w \<noteq> Std_terminate" by (rule iteration_not_terminate)
next
  fix w'
  assume "iteration fx e w = Loop_again w'"
  from iteration_again [OF this] obtain c where
    c: "calls w' = calls w @ [c]" "c_lock_held c" "unwound True (c_trace c)"
       "(c_outcome c = Raised) = raised_in (c_trace c)"
    by blast
  have l: "last (calls w') = c" using c(1) by simp
  show "c_lock_held (last (calls w'))"
    "unwound True (c_trace (last (calls w')))"
    "(c_outcome (last (calls w')) = Raised) = raised_in (c_trace (last (calls w')))"
    using c l by simp_all
qed

theorem lock_is_held_when_the_callback_has_ended_witness:
  "iteration testing_app_fx notified_on_event test1 = Loop_again test1_after_event \<and>
   c_outcome (last (calls test1_after_event)) = Raised \<and>
   c_trace (last (calls test1_after_event)) =
     [Got_was_timeout False, Unlocked, Got_was_timeout False, Assigned (False, ''abc''),
      Did_set_timeout 2000000000, Threw, Relocked] \<and>
   unwound True (c_trace (last (calls test1_after_event))) \<and>
   c_lock_held (last (calls test1_after_event))"
proof -
  from lock_is_held_when_the_callback_has_ended [of testing_app_fx notified_on_event test1]
    test1_event
  have "c_lock_held (last (calls test1_after_event))"
    "unwound True (c_trace (last (calls test1_after_event)))"
    by blast+
  then show ?thesis
    using test1_event by (simp add: test1_after_event_def event_call_def)
qed

section \<open>The extra argument\<close>

text \<open>
  C6. The thread function holds a reference to the caller's object, not a copy made at
  \<^verbatim>\<open>start\<close>. A worker started on a string \<^verbatim>\<open>abc\<close>, whose caller assigns \<^verbatim>\<open>xyz\<close> to that
  string after the first invocation, hands \<^verbatim>\<open>xyz\<close> to the second and third invocations.
\<close>

theorem argument_follows_the_callers_object:
  "ax (started 1000000000 ''abc'') = ''abc'' \<and>
   map_option args_seen
     (thread_proc only_returns [times_out, caller_assigns ''xyz'', times_out]
        (started 1000000000 ''abc''))
     = Some [''abc'', ''xyz'', ''xyz'']"
  by (simp add: iteration_def dispatch_def seen_arg_def wait_for_def times_out_def
      caller_assigns_def args_seen_def
      unsatisfied_def started_def simple_thread_new_def only_returns_def
      simple_thread_context_new_def set_timeout_def set_was_timeout_def
      did_def leave_def get_new_timeout_def)

end
